theory Spec2Isabelle
  imports Complex_Main "HOL-Library.Sublist"
begin

section \<open>The offline latency analyser (latency\_analyse.py)\<close>

text \<open>
  The script reads a file as UTF-8 text, collects every non-overlapping match of

  \<^verbatim>\<open>System Latency: ([\d.]+) ms\. FC Latency: ([\d.]+), Vicon Latency: ([\d.]+)\<close>

  with \<^verbatim>\<open>findall\<close>, converts the captured strings to floats and reports the minimum,
  maximum and mean of each of the three columns.

  The text is a Python \<^verbatim>\<open>str\<close>: a list of Unicode code points. The pattern is a
  sequence of literal pieces and capture groups \<^verbatim>\<open>([\d.]+)\<close>. Python floats are modelled
  by the reals: the rounding of binary floating point is not part of the model.
\<close>

type_synonym str = "nat list"

text \<open>The code points of a literal of the source (all of them are ASCII).\<close>

definition codes :: "string \<Rightarrow> str" where
  "codes s = map of_char s"

datatype tok = Lit str | DigitsDots

definition pattern :: "tok list" where
  "pattern =
     [Lit (codes ''System Latency: ''), DigitsDots, Lit (codes '' ms. FC Latency: ''),
      DigitsDots, Lit (codes '', Vicon Latency: ''), DigitsDots]"

text \<open>
  In a \<^verbatim>\<open>str\<close> pattern \<^verbatim>\<open>\d\<close> matches every Unicode decimal digit (general category
  Nd), and \<^verbatim>\<open>float\<close> reads each of them as its digit value. The decimal digits come in
  runs of ten consecutive code points for the digits 0 to 9; the list holds the first code
  point of each run (Unicode 14.0, the table of CPython 3.11: the ASCII digits from 48, the
  Arabic-Indic digits from 1632, ..., the fullwidth digits from 65296, ...).
\<close>

definition decimal_zeros :: "nat list" where
  "decimal_zeros =
     [48, 1632, 1776, 1984, 2406, 2534, 2662, 2790, 2918, 3046,
      3174, 3302, 3430, 3558, 3664, 3792, 3872, 4160, 4240, 6112,
      6160, 6470, 6608, 6784, 6800, 6992, 7088, 7232, 7248, 42528,
      43216, 43264, 43472, 43504, 43600, 44016, 65296, 66720, 68912, 69734,
      69872, 69942, 70096, 70384, 70736, 70864, 71248, 71360, 71472, 71904,
      72016, 72784, 73040, 73120, 92768, 92864, 93008, 120782, 120792, 120802,
      120812, 120822, 123200, 123632, 125264, 130032]"

definition decimal_value :: "nat \<Rightarrow> nat option" where
  "decimal_value c =
     map_option (\<lambda>z. c - z) (find (\<lambda>z. z \<le> c \<and> c < z + 10) decimal_zeros)"

text \<open>The class \<^verbatim>\<open>[\d.]\<close>: a decimal digit or the full stop (code point 46).\<close>

definition is_digit_or_dot :: "nat \<Rightarrow> bool" where
  "is_digit_or_dot c = (decimal_value c \<noteq> None \<or> c = 46)"

text \<open>
  A greedy group first takes the longest run of digits and dots and gives characters back
  one at a time while the rest of the pattern fails (\<open>n\<close> is the number of characters
  still held by the group; a group never matches the empty string).
\<close>

fun backtrack ::
  "(str \<Rightarrow> (str list \<times> str) option) \<Rightarrow> str \<Rightarrow> nat \<Rightarrow> (str list \<times> str) option"
where
  "backtrack k s 0 = None"
| "backtrack k s (Suc n) =
     (case k (drop (Suc n) s) of
        Some (caps, r) \<Rightarrow> Some (take (Suc n) s # caps, r)
      | None \<Rightarrow> backtrack k s n)"

text \<open>
  \<open>match_toks ts s\<close> matches the pattern \<open>ts\<close> at the start of \<open>s\<close>: the captured groups
  and the text after the match, or \<open>None\<close>.
\<close>

primrec match_toks :: "tok list \<Rightarrow> str \<Rightarrow> (str list \<times> str) option" where
  "match_toks [] = (\<lambda>s. Some ([], s))"
| "match_toks (t # ts) = (\<lambda>s.
     case t of
       Lit l \<Rightarrow> (if take (length l) s = l then match_toks ts (drop (length l) s) else None)
     | DigitsDots \<Rightarrow> backtrack (match_toks ts) s (length (takeWhile is_digit_or_dot s)))"

lemma backtrack_shorter:
  assumes k: "\<And>s' caps r. k s' = Some (caps, r) \<Longrightarrow> length r \<le> length s'"
  shows "backtrack k s n = Some (caps, r) \<Longrightarrow> length r \<le> length s"
proof (induction n)
  case 0
  then show ?case by simp
next
  case (Suc n)
  show ?case
  proof (cases "k (drop (Suc n) s)")
    case None
    with Suc show ?thesis by simp
  next
    case (Some a)
    obtain caps' r' where a: "a = (caps', r')" by (cases a)
    from Suc.prems Some a have "r' = r" by simp
    with k [of "drop (Suc n) s" caps' r'] Some a have "length r \<le> length (drop (Suc n) s)"
      by simp
    then show ?thesis by simp
  qed
qed

lemma match_toks_shorter:
  "match_toks ts s = Some (caps, r) \<Longrightarrow> length r \<le> length s"
proof (induction ts arbitrary: s caps r)
  case Nil
  then show ?case by simp
next
  case (Cons t ts)
  show ?case
  proof (cases t)
    case (Lit l)
    with Cons.prems have "match_toks ts (drop (length l) s) = Some (caps, r)"
      by (simp split: if_splits)
    from Cons.IH [OF this] show ?thesis by simp
  next
    case DigitsDots
    with Cons.prems
    have "backtrack (match_toks ts) s (length (takeWhile is_digit_or_dot s)) = Some (caps, r)"
      by simp
    then show ?thesis
      by (rule backtrack_shorter [rotated]) (rule Cons.IH)
  qed
qed

lemma match_pattern_shorter:
  "match_toks pattern s = Some (caps, r) \<Longrightarrow> length r < length s"
proof -
  assume m: "match_toks pattern s = Some (caps, r)"
  let ?l = "codes ''System Latency: ''"
  have l: "length ?l = 16" by (simp add: codes_def)
  from m have "match_toks (tl pattern) (drop (length ?l) s) = Some (caps, r)"
    and "take (length ?l) s = ?l"
    by (simp_all add: pattern_def split: if_splits)
  then have "length r \<le> length (drop (length ?l) s)" and "length (take (length ?l) s) = 16"
    by (auto dest: match_toks_shorter simp: l)
  then show ?thesis by (simp add: l)
qed

text \<open>
  \<^verbatim>\<open>pattern.findall(log_text)\<close>: scan from the left; after a match the scan goes on
  behind it, otherwise one character further.
\<close>

function findall :: "str \<Rightarrow> str list list" where
  "findall [] = []"
| "findall (c # s) =
     (case match_toks pattern (c # s) of
        Some (caps, rest) \<Rightarrow> caps # findall rest
      | None \<Rightarrow> findall s)"
  by pat_completeness auto
termination
  by (relation "measure length") (auto dest: match_pattern_shorter)

text \<open>
  \<^verbatim>\<open>.astype(float)\<close> on the captured strings. A capture holds decimal digits and dots
  only; Python's \<^verbatim>\<open>float\<close> accepts such a string when it has at most one dot and at least
  one digit (\<^verbatim>\<open>"10"\<close>, \<^verbatim>\<open>"10."\<close>, \<^verbatim>\<open>".5"\<close>, \<^verbatim>\<open>"0.005"\<close>), reading every decimal digit
  by its value, and raises ValueError otherwise (\<^verbatim>\<open>"."\<close>, \<^verbatim>\<open>"1.2.3"\<close>).
\<close>

datatype py_error = ValueError

definition digit_val :: "nat \<Rightarrow> nat" where
  "digit_val c = (case decimal_value c of Some d \<Rightarrow> d | None \<Rightarrow> 0)"

definition digits_val :: "str \<Rightarrow> nat" where
  "digits_val ds = fold (\<lambda>c n. 10 * n + digit_val c) ds 0"

definition py_float :: "str \<Rightarrow> py_error + real" where
  "py_float s =
     (let ip = takeWhile (\<lambda>c. c \<noteq> 46) s;
          fp = drop 1 (dropWhile (\<lambda>c. c \<noteq> 46) s)
      in if \<not> list_all is_digit_or_dot s \<or> 46 \<in> set fp \<or> (ip = [] \<and> fp = [])
         then Inl ValueError
         else Inr (real (digits_val ip) + real (digits_val fp) / 10 ^ length fp))"

fun astype_float_row :: "str list \<Rightarrow> py_error + real list" where
  "astype_float_row [] = Inr []"
| "astype_float_row (x # xs) =
     (case py_float x of
        Inl e \<Rightarrow> Inl e
      | Inr v \<Rightarrow> (case astype_float_row xs of Inl e \<Rightarrow> Inl e | Inr vs \<Rightarrow> Inr (v # vs)))"

fun astype_float :: "str list list \<Rightarrow> py_error + real list list" where
  "astype_float [] = Inr []"
| "astype_float (r # rs) =
     (case astype_float_row r of
        Inl e \<Rightarrow> Inl e
      | Inr v \<Rightarrow> (case astype_float rs of Inl e \<Rightarrow> Inl e | Inr vs \<Rightarrow> Inr (v # vs)))"

text \<open>
  The statistics of one column. On an empty column pandas gives NaN, which is \<open>None\<close>
  here.
\<close>

definition column :: "nat \<Rightarrow> real list list \<Rightarrow> real list" where
  "column i df = map (\<lambda>row. row ! i) df"

fun col_min :: "real list \<Rightarrow> real option" where
  "col_min [] = None"
| "col_min (x # xs) = Some (fold min xs x)"

fun col_max :: "real list \<Rightarrow> real option" where
  "col_max [] = None"
| "col_max (x # xs) = Some (fold max xs x)"

fun col_mean :: "real list \<Rightarrow> real option" where
  "col_mean [] = None"
| "col_mean (x # xs) = Some (sum_list (x # xs) / real (length (x # xs)))"

record summary =
  latency_type :: "string list"
  min_ms :: "real option list"
  max_ms :: "real option list"
  avg_ms :: "real option list"

definition analyse :: "str \<Rightarrow> py_error + summary" where
  "analyse log_text =
     (case astype_float (findall log_text) of
        Inl e \<Rightarrow> Inl e
      | Inr df \<Rightarrow>
          Inr \<lparr> latency_type = [''System Latency'', ''FC Latency'', ''Vicon Latency''],
                min_ms = map (\<lambda>i. col_min (column i df)) [0, 1, 2],
                max_ms = map (\<lambda>i. col_max (column i df)) [0, 1, 2],
                avg_ms = map (\<lambda>i. col_mean (column i df)) [0, 1, 2] \<rparr>)"

text \<open>A diagnostic line as the acquisition loop writes it, with the three numbers as text.\<close>

definition latency_line :: "string \<Rightarrow> string \<Rightarrow> string \<Rightarrow> string" where
  "latency_line a b c =
     ''System Latency: '' @ a @ '' ms. FC Latency: '' @ b @ '', Vicon Latency: '' @ c"


subsection \<open>Evaluating the analyser\<close>

lemma decimal_value_ascii:
  "c < 1632 \<Longrightarrow> decimal_value c = (if 48 \<le> c \<and> c < 58 then Some (c - 48) else None)"
  by (simp add: decimal_value_def decimal_zeros_def)

lemma is_digit_or_dot_ascii:
  "c < 1632 \<Longrightarrow> is_digit_or_dot c = (48 \<le> c \<and> c < 58 \<or> c = 46)"
  by (auto simp: is_digit_or_dot_def decimal_value_ascii)




text \<open>
  A digit outside ASCII is a digit for the pattern and for the conversion: a fullwidth 5
  (code point 65301) after the third number belongs to the capture, which is read as 15.
\<close>

lemma fullwidth_digit_example:
  "findall (codes (latency_line ''10'' ''2'' ''1'') @ [65301]) =
     [[codes ''10'', codes ''2'', [49, 65301]]] \<and>
   py_float [49, 65301] = Inr 15"
  by (simp add: latency_line_def pattern_def codes_def is_digit_or_dot_ascii
      is_digit_or_dot_def py_float_def digits_val_def digit_val_def decimal_value_def
      decimal_zeros_def)


subsection \<open>Claims about the analyser\<close>



text \<open>
  C10. A line whose third number is in scientific notation does match: the last group is
  the end of the pattern, so it takes the leading digit \<^verbatim>\<open>1\<close> of \<^verbatim>\<open>1e-05\<close>, the match
  succeeds and the line enters the statistics with the Vicon latency 1. The same exponent
  in the second number excludes the line.
\<close>

theorem C10_scientific_third_value:
  "findall (codes (latency_line ''10'' ''2'' ''1e-05'')) =
     [[codes ''10'', codes ''2'', codes ''1'']] \<and>
   analyse (codes (latency_line ''10'' ''2'' ''1e-05'')) =
     Inr \<lparr> latency_type = [''System Latency'', ''FC Latency'', ''Vicon Latency''],
           min_ms = [Some 10, Some 2, Some 1],
           max_ms = [Some 10, Some 2, Some 1],
           avg_ms = [Some 10, Some 2, Some 1] \<rparr> \<and>
   findall (codes (latency_line ''10'' ''2e-05'' ''1'')) = []"
proof -
  have f: "findall (codes (latency_line ''10'' ''2'' ''1e-05'')) =
      [[codes ''10'', codes ''2'', codes ''1'']]"
    by (simp add: latency_line_def pattern_def codes_def is_digit_or_dot_ascii)
  have g: "findall (codes (latency_line ''10'' ''2e-05'' ''1'')) = []"
    by (simp add: latency_line_def pattern_def codes_def is_digit_or_dot_ascii)
  have "analyse (codes (latency_line ''10'' ''2'' ''1e-05'')) =
     Inr \<lparr> latency_type = [''System Latency'', ''FC Latency'', ''Vicon Latency''],
           min_ms = [Some 10, Some 2, Some 1],
           max_ms = [Some 10, Some 2, Some 1],
           avg_ms = [Some 10, Some 2, Some 1] \<rparr>"
    unfolding analyse_def f
    by (simp add: py_float_def codes_def is_digit_or_dot_ascii decimal_value_ascii
        digits_val_def digit_val_def column_def)
  with f g show ?thesis by simp
qed

section \<open>The acquisition threads (vicon.py)\<close>

text \<open>
  \<^verbatim>\<open>ViconWrapper.run\<close> and \<^verbatim>\<open>VirtualViconWrapper.run\<close> are modelled as functions from
  what the environment does (the outcome of every call to the Vicon client, the clock,
  the callback and the file system) to the exception that leaves \<^verbatim>\<open>run\<close>, if any, and
  the final state: the position log and the trace of effects in the order they happen.

  An exception is a value. \<open>Exception m\<close> stands for any exception of class
  \<^verbatim>\<open>Exception\<close>, which \<^verbatim>\<open>except Exception\<close> catches; \<^verbatim>\<open>KeyboardInterrupt\<close> and
  \<^verbatim>\<open>SystemExit\<close> derive from \<^verbatim>\<open>BaseException\<close> only.
\<close>

datatype exn = KeyboardInterrupt | Exception string | SystemExit

datatype level = DEBUG | INFO | WARNING | ERROR

type_synonym vec3 = "real \<times> real \<times> real"

text \<open>The values stored in a frame record, and a record as the dictionary literal builds it.\<close>

datatype jval = JInt int | JFloat real | JList "jval list"

type_synonym frame = "(string \<times> jval) list"

text \<open>The messages of the logger calls, with the values the f-strings format.\<close>

datatype msg =
    ClientCreated
  | Connecting
  | ConnectionSuccessful
  | MarkerSegmentEnabled
  | Subject string
  | UnlabeledEnabled
  | StreamModeSet
  | UnlabeledMarkerCount "int option"
  | SystemLatency real real real
  | Position real real real
  | OccludedOrNoData
  | Interrupted
  | UnexpectedError string
  | LogSaved string
  | Disconnected
  | GeneratingSynthetic

text \<open>
  The effects: a logger call, \<^verbatim>\<open>time.sleep\<close>, a call of the callback (its positional
  arguments and the \<^verbatim>\<open>timestamp\<close> keyword; the synthetic thread passes one list), the
  write of the log file (path, frames, and whether the write succeeded) and a call of
  \<^verbatim>\<open>client.disconnect\<close>.
\<close>

datatype event =
    Log level msg
  | Sleep real
  | Callback "real list" real
  | CallbackList "int list"
  | Persist string "frame list" bool
  | Disconnect

record state =
  position_log :: "frame list"
  trace :: "event list"

definition init_state :: state where
  "init_state = \<lparr> position_log = [], trace = [] \<rparr>"

type_synonym outcome = "exn option \<times> state"

text \<open>
  Statements in sequence are written in continuation style: \<open>call r k\<close> is a call whose
  outcome is \<open>r\<close> (it raises, or returns a value to the rest \<open>k\<close> of the block), \<open>emit\<close>
  records an effect, \<open>finish\<close> ends the block normally.
\<close>

definition call :: "exn + 'a \<Rightarrow> ('a \<Rightarrow> state \<Rightarrow> outcome) \<Rightarrow> state \<Rightarrow> outcome" where
  "call r k s = (case r of Inl e \<Rightarrow> (Some e, s) | Inr v \<Rightarrow> k v s)"

definition emit :: "event \<Rightarrow> (state \<Rightarrow> outcome) \<Rightarrow> state \<Rightarrow> outcome" where
  "emit ev k s = k (s\<lparr>trace := trace s @ [ev]\<rparr>)"

definition log :: "level \<Rightarrow> msg \<Rightarrow> (state \<Rightarrow> outcome) \<Rightarrow> state \<Rightarrow> outcome" where
  "log lv m = emit (Log lv m)"

definition append_frame :: "frame \<Rightarrow> (state \<Rightarrow> outcome) \<Rightarrow> state \<Rightarrow> outcome" where
  "append_frame f k s = k (s\<lparr>position_log := position_log s @ [f]\<rparr>)"

definition raise :: "exn \<Rightarrow> state \<Rightarrow> outcome" where
  "raise e s = (Some e, s)"

definition finish :: "state \<Rightarrow> outcome" where
  "finish s = (None, s)"

text \<open>Python's truth value of a subject name: \<^verbatim>\<open>None\<close> and the empty string are false.\<close>

definition truthy :: "string option \<Rightarrow> bool" where
  "truthy n = (case n of None \<Rightarrow> False | Some v \<Rightarrow> v \<noteq> [])"

subsection \<open>The environment\<close>

record config =
  labeled_object :: bool
  has_callback :: bool

text \<open>
  What the environment does in one iteration of \<^verbatim>\<open>while self.running\<close>: the outcome of
  each client call the iteration can make, the clock, and what the callback does when it is
  called (\<open>Inr None\<close>: it returns \<^verbatim>\<open>None\<close>).
\<close>

record poll =
  get_frame :: "exn + bool"
  get_frame_number :: "exn + int"
  get_subject_count :: "exn + int option"
  get_unlabeled_marker_count :: "exn + int option"
  get_subject_name :: "exn + string option"
  get_subject_root_segment_name :: "exn + string"
  get_segment_global_translation :: "exn + vec3 option"
  get_segment_global_rotation_euler_xyz :: "exn + vec3 option"
  get_unlabeled_marker_global_translation :: "exn + vec3 option"
  time_time :: real
  callback_result :: "exn + real option"
  get_time_code :: "exn + unit"
  get_latency_total :: "exn + real"

text \<open>
  The file system and the clock at the end of a session: the formatted time of
  \<^verbatim>\<open>datetime.now()\<close> and the outcome of \<^verbatim>\<open>open(file_path, "w")\<close> with \<^verbatim>\<open>json.dump\<close>.
\<close>

record storage =
  now_formatted :: string
  write_file :: "exn + unit"

text \<open>
  What the client does outside the loop; \<open>first_subject_name\<close> is the outcome of
  \<^verbatim>\<open>client.get_subject_name(0)\<close> while the session is configured.
\<close>

record session = storage +
  create_client :: "exn + unit"
  connect :: "exn + unit"
  enable_marker_data :: "exn + unit"
  enable_segment_data :: "exn + unit"
  first_subject_name :: "exn + string option"
  enable_unlabeled_marker_data :: "exn + unit"
  set_stream_mode :: "exn + unit"
  set_axis_mapping :: "exn + unit"
  is_connected :: "exn + bool"
  disconnect :: "exn + unit"

subsection \<open>ViconWrapper.run\<close>

text \<open>The body of \<^verbatim>\<open>while self.running\<close>, from the inside out.\<close>

definition count_objects ::
  "config \<Rightarrow> poll \<Rightarrow> (int option \<Rightarrow> state \<Rightarrow> outcome) \<Rightarrow> state \<Rightarrow> outcome"
where
  "count_objects cfg p k =
     (if labeled_object cfg then call (get_subject_count p) k
      else call (get_unlabeled_marker_count p) (\<lambda>object_count.
             log DEBUG (UnlabeledMarkerCount object_count) (k object_count)))"

definition extract_pose ::
  "config \<Rightarrow> poll \<Rightarrow> (vec3 option \<Rightarrow> vec3 option \<Rightarrow> state \<Rightarrow> outcome) \<Rightarrow> state \<Rightarrow> outcome"
where
  "extract_pose cfg p k =
     (if labeled_object cfg then
        call (get_subject_name p) (\<lambda>subject_name.
          if truthy subject_name then
            log DEBUG (Subject (the subject_name)) (
            call (get_subject_root_segment_name p) (\<lambda>root_segment.
            call (get_segment_global_translation p) (\<lambda>translation.
            call (get_segment_global_rotation_euler_xyz p) (\<lambda>rotation.
              k translation rotation))))
          else k None None)
      else
        call (get_unlabeled_marker_global_translation p) (\<lambda>translation.
          k translation None))"

definition invoke_callback ::
  "config \<Rightarrow> poll \<Rightarrow> vec3 \<Rightarrow> vec3 option \<Rightarrow> (real option \<Rightarrow> state \<Rightarrow> outcome) \<Rightarrow> state \<Rightarrow> outcome"
where
  "invoke_callback cfg p pos rotation k =
     (case pos of (pos_x, pos_y, pos_z) \<Rightarrow>
        if has_callback cfg then
          (case rotation of
             Some (r0, r1, r2) \<Rightarrow>
               emit (Callback [pos_x, pos_y, pos_z, r0, r1, r2] (time_time p))
                 (call (callback_result p) k)
           | None \<Rightarrow>
               emit (Callback [pos_x, pos_y, pos_z] (time_time p))
                 (call (callback_result p) k))
        else k (Some 0))"

text \<open>
  The branch \<^verbatim>\<open>if translation is not None\<close>. The comparison \<^verbatim>\<open>fc_latency > 0\<close> raises
  TypeError when the callback has returned \<^verbatim>\<open>None\<close>.
\<close>

definition capture :: "config \<Rightarrow> poll \<Rightarrow> int \<Rightarrow> vec3 \<Rightarrow> vec3 option \<Rightarrow> state \<Rightarrow> outcome" where
  "capture cfg p frame_num pos rotation =
     (case pos of (pos_x, pos_y, pos_z) \<Rightarrow>
        append_frame
          [(''frame_id'', JInt frame_num),
           (''tvec'', JList [JFloat pos_x, JFloat pos_y, JFloat pos_z]),
           (''time'', JFloat (time_time p * 1000))] (
        invoke_callback cfg p pos rotation (\<lambda>fc_latency.
        call (get_time_code p) (\<lambda>_.
          case fc_latency of
            None \<Rightarrow> raise (Exception ''TypeError'')
          | Some fc \<Rightarrow>
              if fc > 0 then
                call (get_latency_total p) (\<lambda>vicon_latency.
                  log DEBUG (SystemLatency (fc + vicon_latency * 1000) fc (vicon_latency * 1000)) (
                  log DEBUG (Position pos_x pos_y pos_z) finish))
              else log DEBUG (Position pos_x pos_y pos_z) finish))))"

definition iteration :: "config \<Rightarrow> poll \<Rightarrow> state \<Rightarrow> outcome" where
  "iteration cfg p =
     call (get_frame p) (\<lambda>got_frame.
       if got_frame then
         call (get_frame_number p) (\<lambda>frame_num.
         count_objects cfg p (\<lambda>object_count.
           if object_count = Some 1 then
             extract_pose cfg p (\<lambda>translation rotation.
               case translation of
                 Some pos \<Rightarrow> capture cfg p frame_num pos rotation
               | None \<Rightarrow> log WARNING OccludedOrNoData finish)
           else finish))
       else emit (Sleep (1 / 50)) finish)"

text \<open>
  \<^verbatim>\<open>while self.running\<close>. The flag is cleared by another thread; the loop is given the
  iterations it starts before it reads the flag as false. It ends early when an iteration
  raises.
\<close>

fun streaming :: "config \<Rightarrow> poll list \<Rightarrow> state \<Rightarrow> outcome" where
  "streaming cfg [] s = (None, s)"
| "streaming cfg (p # ps) s =
     (case iteration cfg p s of
        (None, s') \<Rightarrow> streaming cfg ps s'
      | (Some e, s') \<Rightarrow> (Some e, s'))"

text \<open>The statements of the \<^verbatim>\<open>try\<close> block before the loop.\<close>

definition configure :: "config \<Rightarrow> session \<Rightarrow> (state \<Rightarrow> outcome) \<Rightarrow> state \<Rightarrow> outcome" where
  "configure cfg env k =
     (if labeled_object cfg then
        call (enable_marker_data env) (\<lambda>_.
        call (enable_segment_data env) (\<lambda>_.
        log INFO MarkerSegmentEnabled (
        call (first_subject_name env) (\<lambda>subject_name.
          if truthy subject_name then log INFO (Subject (the subject_name)) k else k))))
      else
        call (enable_unlabeled_marker_data env) (\<lambda>_.
        log INFO UnlabeledEnabled k))"

definition try_block :: "config \<Rightarrow> session \<Rightarrow> poll list \<Rightarrow> state \<Rightarrow> outcome" where
  "try_block cfg env polls =
     log INFO Connecting (
     call (connect env) (\<lambda>_.
     log INFO ConnectionSuccessful (
     configure cfg env (
     call (set_stream_mode env) (\<lambda>_.
     log INFO StreamModeSet (
     call (set_axis_mapping env) (\<lambda>_.
     streaming cfg polls)))))))"

text \<open>
  The two \<^verbatim>\<open>except\<close> clauses: a caught exception is logged and no longer pending;
  \<^verbatim>\<open>SystemExit\<close> is not caught.
\<close>

definition except_clauses :: "outcome \<Rightarrow> outcome" where
  "except_clauses r =
     (case r of
        (None, s) \<Rightarrow> (None, s)
      | (Some KeyboardInterrupt, s) \<Rightarrow> log ERROR Interrupted finish s
      | (Some (Exception m), s) \<Rightarrow> log ERROR (UnexpectedError m) finish s
      | (Some SystemExit, s) \<Rightarrow> (Some SystemExit, s))"

definition file_path :: "'a storage_scheme \<Rightarrow> string" where
  "file_path env = ''logs/vicon_'' @ now_formatted env @ ''.json''"

text \<open>The write of the log file and the message after it, in both threads.\<close>

definition save_log :: "'a storage_scheme \<Rightarrow> (state \<Rightarrow> outcome) \<Rightarrow> state \<Rightarrow> outcome" where
  "save_log env k s =
     (case write_file env of
        Inl e \<Rightarrow> emit (Persist (file_path env) (position_log s) False) (raise e) s
      | Inr _ \<Rightarrow>
          emit (Persist (file_path env) (position_log s) True) (
          log INFO (LogSaved (file_path env)) k) s)"

definition finally_block :: "session \<Rightarrow> state \<Rightarrow> outcome" where
  "finally_block env =
     save_log env (
     call (is_connected env) (\<lambda>connected.
       if connected then
         emit Disconnect (
         call (disconnect env) (\<lambda>_.
         log INFO Disconnected finish))
       else finish))"

text \<open>
  \<^verbatim>\<open>ViconWrapper.run\<close>. The client is created before the \<^verbatim>\<open>try\<close>. An exception raised
  in the \<^verbatim>\<open>finally\<close> block replaces a pending one; otherwise the pending one is raised again
  after the block.
\<close>

definition run :: "config \<Rightarrow> session \<Rightarrow> poll list \<Rightarrow> outcome" where
  "run cfg env polls =
     call (create_client env) (\<lambda>_.
     log INFO ClientCreated (\<lambda>s.
       case except_clauses (try_block cfg env polls s) of (pending, s1) \<Rightarrow>
         (case finally_block env s1 of
            (Some e, s2) \<Rightarrow> (Some e, s2)
          | (None, s2) \<Rightarrow> (pending, s2)))) init_state"

subsection \<open>VirtualViconWrapper.run\<close>

text \<open>
  One iteration of the synthetic loop: the clock and what the callback does when it is
  called. The call is a statement, so a value the callback returns is dropped.
\<close>

record vpoll =
  v_time_time :: real
  v_callback_result :: "exn + real option"

definition virtual_iteration :: "bool \<Rightarrow> vpoll \<Rightarrow> int \<Rightarrow> state \<Rightarrow> outcome" where
  "virtual_iteration callable p frame_num =
     append_frame
       [(''frame_id'', JInt frame_num),
        (''tvec'', JList [JInt 0, JInt 0, JInt 10]),
        (''vel'', JList [JInt 1, JInt 1, JInt 1]),
        (''time'', JFloat (v_time_time p * 1000))] (
     if callable then
       emit (CallbackList [0, 0, 10, 1, 1, 1]) (
       call (v_callback_result p) (\<lambda>_.
       log DEBUG (Position 0 0 10) finish))
     else log DEBUG (Position 0 0 10) finish)"

text \<open>The loop counts in \<open>frame_num\<close>, which is incremented first in each iteration.\<close>

fun virtual_loop :: "bool \<Rightarrow> vpoll list \<Rightarrow> int \<Rightarrow> state \<Rightarrow> outcome" where
  "virtual_loop callable [] frame_num s = (None, s)"
| "virtual_loop callable (p # ps) frame_num s =
     (case virtual_iteration callable p (frame_num + 1) s of
        (None, s') \<Rightarrow> virtual_loop callable ps (frame_num + 1) s'
      | (Some e, s') \<Rightarrow> (Some e, s'))"

text \<open>
  \<^verbatim>\<open>VirtualViconWrapper.run\<close>: no \<^verbatim>\<open>try\<close>; the \<^verbatim>\<open>else\<close> clause of the \<^verbatim>\<open>while\<close> runs when
  the loop ends by its condition, and is skipped when an exception leaves the loop.
\<close>

definition virtual_run :: "bool \<Rightarrow> storage \<Rightarrow> vpoll list \<Rightarrow> outcome" where
  "virtual_run callable env polls =
     log INFO GeneratingSynthetic (\<lambda>s.
       case virtual_loop callable polls 0 s of
         (None, s') \<Rightarrow> log WARNING OccludedOrNoData (save_log env finish) s'
       | (Some e, s') \<Rightarrow> (Some e, s')) init_state"

subsection \<open>Observations on a trace, and sample environments\<close>

definition succeeded :: "exn + 'a \<Rightarrow> bool" where
  "succeeded r = (case r of Inl _ \<Rightarrow> False | Inr _ \<Rightarrow> True)"

text \<open>The two cleanup steps: the write of the log file and the disconnect.\<close>

fun is_cleanup :: "event \<Rightarrow> bool" where
  "is_cleanup (Persist path frames ok) = True"
| "is_cleanup Disconnect = True"
| "is_cleanup ev = False"

fun is_latency_line :: "event \<Rightarrow> bool" where
  "is_latency_line (Log lv (SystemLatency sys_ms fc_ms vicon_ms)) = True"
| "is_latency_line ev = False"


text \<open>The logs handed to the file write, each with the success of the write.\<close>

fun persisted :: "event list \<Rightarrow> (frame list \<times> bool) list" where
  "persisted [] = []"
| "persisted (Persist path frames ok # evs) = (frames, ok) # persisted evs"
| "persisted (ev # evs) = persisted evs"





text \<open>A session in which every call succeeds, and a frame with one visible entity.\<close>

definition good_session :: session where
  "good_session =
     \<lparr> now_formatted = ''16_57_16_07_15_2025'', write_file = Inr (),
       create_client = Inr (), connect = Inr (),
       enable_marker_data = Inr (), enable_segment_data = Inr (),
       first_subject_name = Inr (Some ''drone''),
       enable_unlabeled_marker_data = Inr (),
       set_stream_mode = Inr (), set_axis_mapping = Inr (),
       is_connected = Inr True, disconnect = Inr () \<rparr>"

definition good_poll :: "int \<Rightarrow> poll" where
  "good_poll n =
     \<lparr> get_frame = Inr True, get_frame_number = Inr n,
       get_subject_count = Inr (Some 1), get_unlabeled_marker_count = Inr (Some 1),
       get_subject_name = Inr (Some ''drone''),
       get_subject_root_segment_name = Inr ''root'',
       get_segment_global_translation = Inr (Some (100, 200, 300)),
       get_segment_global_rotation_euler_xyz = Inr (Some (1, 2, 3)),
       get_unlabeled_marker_global_translation = Inr (Some (100, 200, 300)),
       time_time = 1700, callback_result = Inr (Some 5),
       get_time_code = Inr (), get_latency_total = Inr (1 / 250) \<rparr>"

definition good_storage :: storage where
  "good_storage = \<lparr> now_formatted = ''16_57_16_07_15_2025'', write_file = Inr () \<rparr>"

definition labeled :: config where
  "labeled = \<lparr> labeled_object = True, has_callback = True \<rparr>"


text \<open>
  The latency the loop compares with 0 in a captured frame: \<^verbatim>\<open>fc_latency\<close> is 0.0 unless
  a callback is installed, and then it is what the callback returns.
\<close>

definition reported_latency :: "config \<Rightarrow> poll \<Rightarrow> exn + real option" where
  "reported_latency cfg p = (if has_callback cfg then callback_result p else Inr (Some 0))"

text \<open>All records handed to a file write.\<close>

definition persisted_frames :: "event list \<Rightarrow> frame list" where
  "persisted_frames evs = concat (map fst (persisted evs))"




definition raising_poll :: poll where
  "raising_poll = (good_poll 1)\<lparr>callback_result := Inl (Exception ''boom'')\<rparr>"

definition reporting_vpoll :: vpoll where
  "reporting_vpoll = \<lparr>v_time_time = 1700, v_callback_result = Inr (Some 5)\<rparr>"

definition raising_vpoll :: vpoll where
  "raising_vpoll = \<lparr>v_time_time = 1700, v_callback_result = Inl (Exception ''boom'')\<rparr>"

subsection \<open>What a block appends\<close>

text \<open>
  \<open>writes E F k\<close>: from every state the block \<open>k\<close> only appends to the trace and to the
  position log, the events it appends satisfy \<open>E\<close> and the list of records it appends
  satisfies \<open>F\<close>, whether the block ends normally or raises.
\<close>

definition writes :: "(event \<Rightarrow> bool) \<Rightarrow> (frame list \<Rightarrow> bool) \<Rightarrow> (state \<Rightarrow> outcome) \<Rightarrow> bool" where
  "writes E F k =
     (\<forall>s. \<exists>evs fs.
        position_log (snd (k s)) = position_log s @ fs \<and>
        trace (snd (k s)) = trace s @ evs \<and> list_all E evs \<and> F fs)"

lemma writesD:
  assumes "writes E F k"
  obtains evs fs where "position_log (snd (k s)) = position_log s @ fs"
    and "trace (snd (k s)) = trace s @ evs" and "list_all E evs" and "F fs"
  using assms unfolding writes_def by blast

lemma writes_finish: "F [] \<Longrightarrow> writes E F finish"
  unfolding writes_def finish_def by simp

lemma writes_raise: "F [] \<Longrightarrow> writes E F (raise e)"
  unfolding writes_def raise_def by simp

lemma writes_call:
  assumes "F []" and "\<And>v. r = Inr v \<Longrightarrow> writes E F (k v)"
  shows "writes E F (call r k)"
proof (cases r)
  case (Inl e)
  with \<open>F []\<close> show ?thesis unfolding writes_def call_def by simp
next
  case (Inr v)
  from assms(2) [OF this] show ?thesis unfolding writes_def call_def Inr by simp
qed

lemma writes_emit:
  assumes ev: "E ev" and k: "writes E F k"
  shows "writes E F (emit ev k)"
  unfolding writes_def
proof
  fix s :: state
  let ?s = "s\<lparr>trace := trace s @ [ev]\<rparr>"
  from k obtain evs fs where "position_log (snd (k ?s)) = position_log ?s @ fs"
    and "trace (snd (k ?s)) = trace ?s @ evs" and "list_all E evs" and "F fs"
    by (rule writesD)
  with ev have "position_log (snd (emit ev k s)) = position_log s @ fs \<and>
      trace (snd (emit ev k s)) = trace s @ (ev # evs) \<and> list_all E (ev # evs) \<and> F fs"
    by (simp add: emit_def)
  then show "\<exists>evs fs. position_log (snd (emit ev k s)) = position_log s @ fs \<and>
      trace (snd (emit ev k s)) = trace s @ evs \<and> list_all E evs \<and> F fs"
    by blast
qed

lemma writes_log: "E (Log lv m) \<Longrightarrow> writes E F k \<Longrightarrow> writes E F (log lv m k)"
  unfolding log_def by (rule writes_emit)

lemma writes_append_frame:
  assumes k: "writes E (\<lambda>fs. F (f # fs)) k"
  shows "writes E F (append_frame f k)"
  unfolding writes_def
proof
  fix s :: state
  let ?s = "s\<lparr>position_log := position_log s @ [f]\<rparr>"
  from k obtain evs fs where "position_log (snd (k ?s)) = position_log ?s @ fs"
    and "trace (snd (k ?s)) = trace ?s @ evs" and "list_all E evs" and "F (f # fs)"
    by (rule writesD)
  then have "position_log (snd (append_frame f k s)) = position_log s @ (f # fs) \<and>
      trace (snd (append_frame f k s)) = trace s @ evs \<and> list_all E evs \<and> F (f # fs)"
    by (simp add: append_frame_def)
  then show "\<exists>evs fs. position_log (snd (append_frame f k s)) = position_log s @ fs \<and>
      trace (snd (append_frame f k s)) = trace s @ evs \<and> list_all E evs \<and> F fs"
    by blast
qed

lemma writes_weaken:
  assumes "writes E F k" and "\<And>fs. F fs \<Longrightarrow> G fs"
  shows "writes E G k"
  using assms unfolding writes_def by blast

lemmas writes_intros =
  writes_finish writes_raise writes_call writes_emit writes_log writes_append_frame

text \<open>The record the device loop appends for a poll it captures.\<close>

definition is_record_of :: "poll \<Rightarrow> frame \<Rightarrow> bool" where
  "is_record_of p f =
     (get_frame p = Inr True \<and>
      (\<exists>n x y z. get_frame_number p = Inr n \<and>
         f = [(''frame_id'', JInt n), (''tvec'', JList [JFloat x, JFloat y, JFloat z]),
              (''time'', JFloat (time_time p * 1000))]))"

text \<open>Events that are no cleanup step.\<close>

definition quiet :: "event \<Rightarrow> bool" where
  "quiet ev = (\<not> is_cleanup ev)"

lemma quiet_simps [simp]:
  "quiet (Log lv m)" "quiet (Sleep x)" "quiet (Callback a t)" "quiet (CallbackList l)"
  by (simp_all add: quiet_def)

lemma writes_capture:
  assumes "get_frame p = Inr True" and "get_frame_number p = Inr n"
  shows "writes quiet (\<lambda>fs. list_all2 is_record_of [p] fs) (capture cfg p n pos rotation)"
  using assms unfolding capture_def invoke_callback_def
  by (auto simp: is_record_of_def intro!: writes_intros split: prod.split option.split)

lemma writes_iteration:
  "writes quiet (\<lambda>fs. fs = [] \<or> list_all2 is_record_of [p] fs) (iteration cfg p)"
  unfolding iteration_def count_objects_def extract_pose_def
  by (auto intro!: writes_intros writes_weaken [OF writes_capture] split: option.split)


text \<open>
  A log of the device thread: the records of some of the polls, in the order of the polls.
\<close>

definition captured_log :: "poll list \<Rightarrow> frame list \<Rightarrow> bool" where
  "captured_log polls fs = (\<exists>captured. subseq captured polls \<and> list_all2 is_record_of captured fs)"

lemma captured_log_Nil: "captured_log polls []"
  unfolding captured_log_def by (rule exI [of _ "[]"]) simp

lemma captured_log_skip: "captured_log ps fs \<Longrightarrow> captured_log (p # ps) fs"
  unfolding captured_log_def by (blast intro: list_emb_Cons)

lemma captured_log_Cons:
  "list_all2 is_record_of [p] fs \<Longrightarrow> captured_log ps fs' \<Longrightarrow> captured_log (p # ps) (fs @ fs')"
proof -
  assume a: "list_all2 is_record_of [p] fs" and b: "captured_log ps fs'"
  from b obtain captured where c: "subseq captured ps" "list_all2 is_record_of captured fs'"
    unfolding captured_log_def by blast
  from a c have "subseq (p # captured) (p # ps) \<and> list_all2 is_record_of (p # captured) (fs @ fs')"
    by (auto simp: list_all2_Cons1)
  then show ?thesis unfolding captured_log_def by blast
qed

lemma writes_streaming: "writes quiet (captured_log polls) (streaming cfg polls)"
proof (induction polls)
  case Nil
  show ?case unfolding writes_def by (simp add: captured_log_Nil)
next
  case (Cons p ps)
  show ?case unfolding writes_def
  proof
    fix s :: state
    from writes_iteration obtain evs fs
      where it: "position_log (snd (iteration cfg p s)) = position_log s @ fs"
        "trace (snd (iteration cfg p s)) = trace s @ evs" "list_all quiet evs"
        "fs = [] \<or> list_all2 is_record_of [p] fs"
      by (rule writesD)
    obtain r s' where r: "iteration cfg p s = (r, s')" by (cases "iteration cfg p s")
    show "\<exists>evs fs. position_log (snd (streaming cfg (p # ps) s)) = position_log s @ fs \<and>
        trace (snd (streaming cfg (p # ps) s)) = trace s @ evs \<and> list_all quiet evs \<and>
        captured_log (p # ps) fs"
    proof (cases r)
      case None
      from Cons.IH obtain evs' fs'
        where rest: "position_log (snd (streaming cfg ps s')) = position_log s' @ fs'"
          "trace (snd (streaming cfg ps s')) = trace s' @ evs'" "list_all quiet evs'"
          "captured_log ps fs'"
        by (rule writesD)
      from it(4) rest(4) have "captured_log (p # ps) (fs @ fs')"
        by (auto intro: captured_log_skip captured_log_Cons)
      with it rest r None
      have "position_log (snd (streaming cfg (p # ps) s)) = position_log s @ (fs @ fs') \<and>
        trace (snd (streaming cfg (p # ps) s)) = trace s @ (evs @ evs') \<and>
        list_all quiet (evs @ evs') \<and> captured_log (p # ps) (fs @ fs')"
        by simp
      then show ?thesis by blast
    next
      case (Some e)
      from it(4) have "captured_log (p # ps) fs"
        using captured_log_Cons [of p fs ps "[]"] by (auto intro: captured_log_Nil)
      with it r Some
      have "position_log (snd (streaming cfg (p # ps) s)) = position_log s @ fs \<and>
        trace (snd (streaming cfg (p # ps) s)) = trace s @ evs \<and>
        list_all quiet evs \<and> captured_log (p # ps) fs"
        by simp
      then show ?thesis by blast
    qed
  qed
qed

lemma writes_try_block: "writes quiet (captured_log polls) (try_block cfg env polls)"
  unfolding try_block_def configure_def
  by (auto intro!: writes_intros writes_streaming simp: captured_log_Nil)

lemma writes_except_clauses:
  assumes k: "writes E F k" and E: "\<And>m. E (Log ERROR m)"
  shows "writes E F (\<lambda>s. except_clauses (k s))"
  unfolding writes_def
proof
  fix s :: state
  from k obtain evs fs where a: "position_log (snd (k s)) = position_log s @ fs"
    "trace (snd (k s)) = trace s @ evs" "list_all E evs" "F fs"
    by (rule writesD)
  obtain r s' where r: "k s = (r, s')" by (cases "k s")
  show "\<exists>evs fs. position_log (snd (except_clauses (k s))) = position_log s @ fs \<and>
      trace (snd (except_clauses (k s))) = trace s @ evs \<and> list_all E evs \<and> F fs"
  proof (cases "\<exists>m. r = Some KeyboardInterrupt \<or> r = Some (Exception m)")
    case True
    then obtain m where "except_clauses (k s) = (None, s'\<lparr>trace := trace s' @ [Log ERROR m]\<rparr>)"
      using r by (auto simp: except_clauses_def log_def emit_def finish_def)
    with a r E [of m]
    have "position_log (snd (except_clauses (k s))) = position_log s @ fs \<and>
      trace (snd (except_clauses (k s))) = trace s @ (evs @ [Log ERROR m]) \<and>
      list_all E (evs @ [Log ERROR m]) \<and> F fs"
      by simp
    then show ?thesis by blast
  next
    case False
    then have "except_clauses (k s) = k s"
      using r by (auto simp: except_clauses_def split: option.split exn.split)
    with a show ?thesis by auto
  qed
qed

lemma finally_block_position_log:
  "position_log (snd (finally_block env s)) = position_log s"
  unfolding finally_block_def save_log_def call_def emit_def log_def raise_def finish_def
  by (simp split: sum.split)

lemma finally_block_cleanup:
  "filter is_cleanup (trace (snd (finally_block env s))) =
   filter is_cleanup (trace s) @
     Persist (file_path env) (position_log s) (succeeded (write_file env)) #
     (if succeeded (write_file env) \<and> is_connected env = Inr True then [Disconnect] else [])"
  unfolding finally_block_def save_log_def call_def emit_def log_def raise_def finish_def
    succeeded_def
  by (simp split: sum.split)


text \<open>The \<^verbatim>\<open>try\<close> block with its \<^verbatim>\<open>except\<close> clauses, as \<open>run\<close> enters it.\<close>

definition guarded :: "config \<Rightarrow> session \<Rightarrow> poll list \<Rightarrow> outcome" where
  "guarded cfg env polls =
     except_clauses (try_block cfg env polls (init_state\<lparr>trace := [Log INFO ClientCreated]\<rparr>))"

lemma run_unfold:
  assumes "create_client env = Inr ()"
  shows "run cfg env polls =
     (case finally_block env (snd (guarded cfg env polls)) of
        (Some e, s2) \<Rightarrow> (Some e, s2)
      | (None, s2) \<Rightarrow> (fst (guarded cfg env polls), s2))"
  using assms unfolding run_def guarded_def call_def log_def emit_def init_state_def
  by (auto split: prod.split option.split)

lemma run_snd:
  assumes "create_client env = Inr ()"
  shows "snd (run cfg env polls) = snd (finally_block env (snd (guarded cfg env polls)))"
  unfolding run_unfold [OF assms] by (simp split: prod.split option.split)

lemma filter_quiet: "list_all quiet evs \<Longrightarrow> filter is_cleanup evs = []"
  by (induction evs) (simp_all add: quiet_def)

lemma guarded_effect:
  obtains evs fs where "position_log (snd (guarded cfg env polls)) = fs"
    and "captured_log polls fs" and "filter is_cleanup (trace (snd (guarded cfg env polls))) = []"
proof -
  have "writes quiet (captured_log polls) (\<lambda>s. except_clauses (try_block cfg env polls s))"
    by (rule writes_except_clauses [OF writes_try_block]) simp
  then obtain evs fs where
    "position_log (snd (guarded cfg env polls)) =
       position_log (init_state\<lparr>trace := [Log INFO ClientCreated]\<rparr>) @ fs"
    "trace (snd (guarded cfg env polls)) =
       trace (init_state\<lparr>trace := [Log INFO ClientCreated]\<rparr>) @ evs"
    "list_all quiet evs" "captured_log polls fs"
    unfolding guarded_def by (rule writesD)
  then show thesis
    by (intro that [of fs]) (simp_all add: init_state_def filter_quiet)
qed

lemma run_position_log: "captured_log polls (position_log (snd (run cfg env polls)))"
proof (cases "create_client env")
  case (Inl e)
  then show ?thesis by (simp add: run_def call_def init_state_def captured_log_Nil)
next
  case (Inr u)
  then have c: "create_client env = Inr ()" by simp
  show ?thesis
    unfolding run_snd [OF c] finally_block_position_log
    by (rule guarded_effect [of cfg env polls]) simp
qed

lemma run_cleanup:
  assumes "create_client env = Inr ()"
  shows "filter is_cleanup (trace (snd (run cfg env polls))) =
     Persist (file_path env) (position_log (snd (run cfg env polls))) (succeeded (write_file env)) #
     (if succeeded (write_file env) \<and> is_connected env = Inr True then [Disconnect] else [])"
  unfolding run_snd [OF assms] finally_block_position_log finally_block_cleanup
  by (rule guarded_effect [of cfg env polls]) simp




lemma persisted_filter: "persisted (filter is_cleanup evs) = persisted evs"
  by (induction evs rule: persisted.induct) simp_all

lemma run_persisted:
  assumes "create_client env = Inr ()"
  shows "persisted (trace (snd (run cfg env polls))) =
     [(position_log (snd (run cfg env polls)), succeeded (write_file env))]"
proof -
  have "persisted (trace (snd (run cfg env polls))) =
      persisted (filter is_cleanup (trace (snd (run cfg env polls))))"
    by (simp only: persisted_filter)
  also have "\<dots> = [(position_log (snd (run cfg env polls)), succeeded (write_file env))]"
    unfolding run_cleanup [OF assms] by simp
  finally show ?thesis .
qed

subsection \<open>What the synthetic loop appends\<close>

text \<open>The record the synthetic loop appends in the iteration that counts \<open>i\<close>.\<close>

definition synthetic_record :: "int \<Rightarrow> frame \<Rightarrow> bool" where
  "synthetic_record i f =
     (\<exists>t. f = [(''frame_id'', JInt i), (''tvec'', JList [JInt 0, JInt 0, JInt 10]),
               (''vel'', JList [JInt 1, JInt 1, JInt 1]), (''time'', JFloat t)])"

text \<open>Events that are neither a cleanup step nor a latency line.\<close>

definition plain :: "event \<Rightarrow> bool" where
  "plain ev = (\<not> is_cleanup ev \<and> \<not> is_latency_line ev)"

lemma plain_simps [simp]:
  "plain (Log lv (Position x y z))" "plain (CallbackList l)"
  by (simp_all add: plain_def)

lemma writes_virtual_iteration:
  "writes plain (\<lambda>fs. list_all2 synthetic_record [n] fs) (virtual_iteration callable p n)"
  unfolding virtual_iteration_def
  by (auto simp: synthetic_record_def intro!: writes_intros)


lemma writes_virtual_loop:
  "writes plain
     (\<lambda>fs. length fs \<le> length polls \<and>
           list_all2 synthetic_record [n + 1..n + int (length fs)] fs)
     (virtual_loop callable polls n)"
proof (induction polls arbitrary: n)
  case Nil
  show ?case unfolding writes_def by simp
next
  case (Cons p ps)
  show ?case unfolding writes_def
  proof
    fix s :: state
    let ?it = "virtual_iteration callable p (n + 1) s"
    from writes_virtual_iteration obtain evs fs
      where it: "position_log (snd ?it) = position_log s @ fs"
        "trace (snd ?it) = trace s @ evs" "list_all plain evs"
        "list_all2 synthetic_record [n + 1] fs"
      by (rule writesD)
    from it(4) obtain f where f: "fs = [f]" "synthetic_record (n + 1) f"
      by (auto simp: list_all2_Cons1)
    obtain r s' where r: "?it = (r, s')" by (cases ?it)
    let ?res = "virtual_loop callable (p # ps) n s"
    show "\<exists>evs fs. position_log (snd ?res) = position_log s @ fs \<and>
        trace (snd ?res) = trace s @ evs \<and> list_all plain evs \<and>
        length fs \<le> length (p # ps) \<and>
        list_all2 synthetic_record [n + 1..n + int (length fs)] fs"
    proof (cases r)
      case None
      from Cons.IH [of "n + 1"] obtain evs' fs'
        where rest: "position_log (snd (virtual_loop callable ps (n + 1) s')) = position_log s' @ fs'"
          "trace (snd (virtual_loop callable ps (n + 1) s')) = trace s' @ evs'"
          "list_all plain evs'"
          "length fs' \<le> length ps \<and>
           list_all2 synthetic_record [n + 1 + 1..n + 1 + int (length fs')] fs'"
        by (rule writesD)
      have e: "n + int (length (f # fs')) = n + 1 + int (length fs')" by simp
      have up: "[n + 1..n + int (length (f # fs'))] = (n + 1) # [n + 1 + 1..n + 1 + int (length fs')]"
        unfolding e by (rule upto_rec1) simp
      from rest(4) f(2) have "length (f # fs') \<le> length (p # ps) \<and>
          list_all2 synthetic_record [n + 1..n + int (length (f # fs'))] (f # fs')"
        unfolding up by simp
      with it rest r None f(1)
      have "position_log (snd ?res) = position_log s @ (f # fs') \<and>
        trace (snd ?res) = trace s @ (evs @ evs') \<and> list_all plain (evs @ evs') \<and>
        length (f # fs') \<le> length (p # ps) \<and>
        list_all2 synthetic_record [n + 1..n + int (length (f # fs'))] (f # fs')"
        by simp
      then show ?thesis by blast
    next
      case (Some e)
      from f(2) have "length [f] \<le> length (p # ps) \<and>
          list_all2 synthetic_record [n + 1..n + int (length [f])] [f]"
        by simp
      with it r Some f(1)
      have "position_log (snd ?res) = position_log s @ [f] \<and>
        trace (snd ?res) = trace s @ evs \<and> list_all plain evs \<and>
        length [f] \<le> length (p # ps) \<and>
        list_all2 synthetic_record [n + 1..n + int (length [f])] [f]"
        by simp
      then show ?thesis by blast
    qed
  qed
qed




text \<open>The loop as \<open>virtual_run\<close> enters it.\<close>

definition synthetic_loop :: "bool \<Rightarrow> vpoll list \<Rightarrow> outcome" where
  "synthetic_loop callable polls =
     virtual_loop callable polls 0 (init_state\<lparr>trace := [Log INFO GeneratingSynthetic]\<rparr>)"

lemma virtual_run_unfold:
  "virtual_run callable env polls =
     (case synthetic_loop callable polls of
        (None, s') \<Rightarrow> log WARNING OccludedOrNoData (save_log env finish) s'
      | (Some e, s') \<Rightarrow> (Some e, s'))"
  unfolding virtual_run_def synthetic_loop_def log_def emit_def init_state_def
  by simp

lemma synthetic_loop_effect:
  obtains evs fs where "position_log (snd (synthetic_loop callable polls)) = fs"
    and "trace (snd (synthetic_loop callable polls)) = Log INFO GeneratingSynthetic # evs"
    and "list_all plain evs" and "length fs \<le> length polls"
    and "list_all2 synthetic_record [1..int (length fs)] fs"
proof -
  from writes_virtual_loop [of polls 0 callable] obtain evs fs where
    "position_log (snd (synthetic_loop callable polls)) =
       position_log (init_state\<lparr>trace := [Log INFO GeneratingSynthetic]\<rparr>) @ fs"
    "trace (snd (synthetic_loop callable polls)) =
       trace (init_state\<lparr>trace := [Log INFO GeneratingSynthetic]\<rparr>) @ evs"
    "list_all plain evs"
    "length fs \<le> length polls \<and> list_all2 synthetic_record [0 + 1..0 + int (length fs)] fs"
    unfolding synthetic_loop_def by (rule writesD)
  then show thesis
    by (intro that [of fs evs]) (simp_all add: init_state_def)
qed


lemma latency_plain: "list_all plain evs \<Longrightarrow> filter is_latency_line evs = []"
  by (induction evs) (simp_all add: plain_def)


lemma virtual_run_trace:
  "trace (snd (virtual_run callable env polls)) =
   trace (snd (synthetic_loop callable polls)) @
     (if fst (synthetic_loop callable polls) = None
      then [Log WARNING OccludedOrNoData,
            Persist (file_path env) (position_log (snd (synthetic_loop callable polls)))
              (succeeded (write_file env))] @
           (if succeeded (write_file env) then [Log INFO (LogSaved (file_path env))] else [])
      else [])"
  unfolding virtual_run_unfold save_log_def log_def emit_def raise_def finish_def succeeded_def
  by (auto split: prod.split option.split sum.split)


lemma virtual_run_no_latency_line:
  "filter is_latency_line (trace (snd (virtual_run callable env polls))) = []"
  unfolding virtual_run_trace
  by (rule synthetic_loop_effect [of callable polls]) (simp add: latency_plain)






lemma record_fields:
  "list_all2 is_record_of captured fs \<Longrightarrow>
   list_all (\<lambda>f. map fst f = [''frame_id'', ''tvec'', ''time'']) fs"
  by (induction captured fs rule: list_all2_induct) (auto simp: is_record_of_def)

lemma run_persisted_frames:
  "persisted_frames (trace (snd (run cfg env polls))) =
     (if succeeded (create_client env) then position_log (snd (run cfg env polls)) else [])"
proof (cases "create_client env")
  case (Inl e)
  then show ?thesis
    by (simp add: run_def call_def init_state_def persisted_frames_def succeeded_def)
next
  case (Inr u)
  then have c: "create_client env = Inr ()" by simp
  then show ?thesis
    by (simp add: persisted_frames_def run_persisted [OF c] succeeded_def)
qed



lemmas op_defs = call_def emit_def log_def append_frame_def raise_def finish_def

lemmas iter_defs =
  iteration_def count_objects_def extract_pose_def invoke_callback_def capture_def truthy_def

lemmas run_defs =
  run_def try_block_def configure_def except_clauses_def finally_block_def save_log_def
  file_path_def init_state_def

lemmas virt_defs = virtual_run_def virtual_iteration_def save_log_def file_path_def init_state_def

subsection \<open>Claims about the acquisition threads\<close>




text \<open>
  C2. In the synthetic thread a callback that raises in the first iteration ends \<^verbatim>\<open>run\<close>
  with that exception: one record is in the position log and no file write is attempted.
  The device thread, given the same callback, catches the exception and writes the log with
  the record.
\<close>

theorem C2_synthetic_callback_raises:
  "fst (virtual_run True good_storage [raising_vpoll]) = Some (Exception ''boom'') \<and>
   length (position_log (snd (virtual_run True good_storage [raising_vpoll]))) = 1 \<and>
   persisted (trace (snd (virtual_run True good_storage [raising_vpoll]))) = [] \<and>
   fst (run labeled good_session [raising_poll]) = None \<and>
   persisted (trace (snd (run labeled good_session [raising_poll]))) =
     [([[(''frame_id'', JInt 1), (''tvec'', JList [JFloat 100, JFloat 200, JFloat 300]),
         (''time'', JFloat 1700000)]], True)]"
  by (simp add: run_defs iter_defs virt_defs op_defs good_session_def good_storage_def
      good_poll_def raising_poll_def raising_vpoll_def labeled_def)

text \<open>
  C3, as the claim states it, fails in the synthetic thread: the callback reports the
  latency 5 for the captured frame and no latency line is logged.
\<close>

theorem C3_synthetic_no_latency_line_counterexample:
  "v_callback_result reporting_vpoll = Inr (Some 5) \<and>
   virtual_run True good_storage [reporting_vpoll] =
     (None,
      \<lparr>position_log =
         [[(''frame_id'', JInt 1), (''tvec'', JList [JInt 0, JInt 0, JInt 10]),
           (''vel'', JList [JInt 1, JInt 1, JInt 1]), (''time'', JFloat 1700000)]],
       trace =
         [Log INFO GeneratingSynthetic, CallbackList [0, 0, 10, 1, 1, 1],
          Log DEBUG (Position 0 0 10), Log WARNING OccludedOrNoData,
          Persist ''logs/vicon_16_57_16_07_15_2025.json''
            [[(''frame_id'', JInt 1), (''tvec'', JList [JInt 0, JInt 0, JInt 10]),
              (''vel'', JList [JInt 1, JInt 1, JInt 1]), (''time'', JFloat 1700000)]] True,
          Log INFO (LogSaved ''logs/vicon_16_57_16_07_15_2025.json'')]\<rparr>)"
  by (simp add: virt_defs op_defs good_storage_def reporting_vpoll_def)

text \<open>
  C3, amended. In the device thread, take a captured frame whose reported latency is the
  number \<open>fc\<close> (the callback returns it, or there is no callback and it is 0), where
  \<^verbatim>\<open>get_time_code\<close> returns and, when \<open>fc\<close> is positive, \<^verbatim>\<open>get_latency_total\<close> returns
  \<open>source\<close>. The branch ends without an exception; it logs one latency line when
  \<open>0 < fc\<close>, with the total \<open>fc + source * 1000\<close>, and none otherwise.
\<close>

theorem C3_latency_line:
  assumes "reported_latency cfg p = Inr (Some fc)" and "get_time_code p = Inr ()"
    and "0 < fc \<Longrightarrow> get_latency_total p = Inr source"
  shows "fst (capture cfg p n pos rotation s) = None \<and>
     filter is_latency_line (trace (snd (capture cfg p n pos rotation s))) =
       filter is_latency_line (trace s) @
       (if 0 < fc then [Log DEBUG (SystemLatency (fc + source * 1000) fc (source * 1000))]
        else [])"
  using assms
  unfolding capture_def invoke_callback_def reported_latency_def op_defs
  by (auto split: prod.split option.split if_splits)

theorem C3_latency_line_witness:
  "reported_latency labeled (good_poll 1) = Inr (Some 5) \<and>
   get_time_code (good_poll 1) = Inr () \<and> get_latency_total (good_poll 1) = Inr (1 / 250) \<and>
   fst (capture labeled (good_poll 1) 1 (100, 200, 300) (Some (1, 2, 3)) init_state) = None \<and>
   filter is_latency_line
     (trace (snd (capture labeled (good_poll 1) 1 (100, 200, 300) (Some (1, 2, 3)) init_state))) =
     [Log DEBUG (SystemLatency 9 5 4)]"
  using C3_latency_line [of labeled "good_poll 1" 5 "1 / 250" 1 "(100, 200, 300)"
      "Some (1, 2, 3)" init_state]
  by (simp add: reported_latency_def labeled_def good_poll_def init_state_def)






text \<open>
  C6, as the claim states it, fails: in labeled mode, with a rotation returned for the
  subject, the persisted record has the fields \<^verbatim>\<open>frame_id\<close>, \<^verbatim>\<open>tvec\<close> and \<^verbatim>\<open>time\<close> and no
  \<^verbatim>\<open>rvec\<close>.
\<close>

theorem C6_no_rvec_counterexample:
  "labeled_object labeled \<and>
   get_segment_global_rotation_euler_xyz (good_poll 1) = Inr (Some (1, 2, 3)) \<and>
   persisted (trace (snd (run labeled good_session [good_poll 1]))) =
     [([[(''frame_id'', JInt 1), (''tvec'', JList [JFloat 100, JFloat 200, JFloat 300]),
         (''time'', JFloat 1700000)]], True)]"
  by (simp add: run_defs iter_defs op_defs good_session_def good_poll_def labeled_def)

text \<open>
  C6, amended. Every record the device thread hands to the file write has exactly the
  fields \<^verbatim>\<open>frame_id\<close>, \<^verbatim>\<open>tvec\<close> and \<^verbatim>\<open>time\<close>, in every mode: no record has an \<^verbatim>\<open>rvec\<close>.
\<close>

theorem C6_record_fields:
  "list_all (\<lambda>f. map fst f = [''frame_id'', ''tvec'', ''time''])
     (persisted_frames (trace (snd (run cfg env polls))))"
proof -
  from run_position_log [of polls cfg env] obtain captured
    where "list_all2 is_record_of captured (position_log (snd (run cfg env polls)))"
    unfolding captured_log_def by blast
  from record_fields [OF this] show ?thesis
    by (simp add: run_persisted_frames)
qed

theorem C6_record_fields_witness:
  "persisted_frames (trace (snd (run labeled good_session [good_poll 1]))) =
     [[(''frame_id'', JInt 1), (''tvec'', JList [JFloat 100, JFloat 200, JFloat 300]),
         (''time'', JFloat 1700000)]] \<and>
   list_all (\<lambda>f. map fst f = [''frame_id'', ''tvec'', ''time''])
     (persisted_frames (trace (snd (run labeled good_session [good_poll 1]))))"
  using C6_record_fields [of labeled good_session "[good_poll 1]"]
  by (simp add: run_defs iter_defs op_defs good_session_def good_poll_def labeled_def
      persisted_frames_def)




end
